theory Spec2Isabelle
  imports Complex_Main "HOL-Library.Sublist" "HOL-Library.AList"
begin

section \<open>JavaScript values\<close>

text \<open>
  The configuration loader of \<^verbatim>\<open>src/config\<close> is a call of the zod schema
  \<^verbatim>\<open>configSchema.safeParse\<close> on an object assembled from seven variables of
  \<^verbatim>\<open>process.env\<close>. The embedding therefore has three layers: the JavaScript values
  the loader handles, the part of zod (major version 3) the schema uses, and the
  repository's own schema and factory.

  A string is a list of code units; the model covers the code units below 256.
  A number is an IEEE 754 binary64 value, held as the rational it denotes; negative zero
  is identified with zero (every check of the schema treats the two alike, and no message
  prints a parsed number).
\<close>

datatype jsnum = NaN | PosInf | NegInf | Fin rat

datatype jsval =
    JSUndefined
  | JSString string
  | JSNumber jsnum
  | JSObject "(string \<times> jsval) list"

subsection \<open>Rounding to binary64\<close>

function bit_length :: "int \<Rightarrow> int" where
  "bit_length n = (if n \<le> 0 then 0 else 1 + bit_length (n div 2))"
  by pat_completeness auto
termination
  by (relation "measure nat") auto

declare bit_length.simps [simp del]

definition pow2 :: "int \<Rightarrow> rat" where
  "pow2 k = (if 0 \<le> k then 2 ^ nat k else 1 / 2 ^ nat (- k))"

definition floor_log2 :: "rat \<Rightarrow> int" where
  \<comment> \<open>for \<open>0 < q\<close>: the \<open>e\<close> with \<open>2^e \<le> q < 2^(e+1)\<close>\<close>
  "floor_log2 q =
     (let (a, b) = quotient_of q;
          d = bit_length a - bit_length b
      in if pow2 d \<le> q then d else d - 1)"

definition round_half_even :: "rat \<Rightarrow> int" where
  "round_half_even m =
     (let f = \<lfloor>m\<rfloor>; d = m - of_int f
      in if d < 1 / 2 then f
         else if 1 / 2 < d then f + 1
         else if even f then f else f + 1)"

definition round_pos :: "rat \<Rightarrow> jsnum" where
  \<comment> \<open>round to nearest, ties to even, with 53 bits of precision; exponents from
      \<open>-1022\<close> (below it the spacing stays \<open>2^-1074\<close>) to \<open>1023\<close> (above it, infinity)\<close>
  "round_pos q =
     (let e = max (floor_log2 q) (- 1022);
          ulp = pow2 (e - 52);
          v = of_int (round_half_even (q / ulp)) * ulp
      in if pow2 1024 \<le> v then PosInf else Fin v)"

definition negate :: "jsnum \<Rightarrow> jsnum" where
  "negate n = (case n of NaN \<Rightarrow> NaN | PosInf \<Rightarrow> NegInf | NegInf \<Rightarrow> PosInf | Fin q \<Rightarrow> Fin (- q))"

definition round_double :: "rat \<Rightarrow> jsnum" where
  "round_double q =
     (if q = 0 then Fin 0 else if 0 < q then round_pos q else negate (round_pos (- q)))"

subsection \<open>\<^verbatim>\<open>Number(value)\<close>: conversion of a string to a number\<close>

text \<open>
  ECMAScript's StringToNumber: white space is trimmed on both sides; the empty string is
  \<open>0\<close>; the rest is either a signed decimal literal (\<^verbatim>\<open>Infinity\<close>, digits with an
  optional fraction and exponent) or an unsigned binary, octal or hexadecimal integer;
  anything else is \<^verbatim>\<open>NaN\<close>. The mathematical value is then rounded to binary64.
\<close>

definition is_white_space :: "char \<Rightarrow> bool" where
  "is_white_space c = (of_char c \<in> {9, 10, 11, 12, 13, 32, 160 :: int})"

definition trim :: "string \<Rightarrow> string" where
  "trim s = rev (dropWhile is_white_space (rev (dropWhile is_white_space s)))"

definition digit_value :: "char \<Rightarrow> int option" where
  "digit_value c =
     (let n = (of_char c :: int)
      in if 48 \<le> n \<and> n \<le> 57 then Some (n - 48)
         else if 97 \<le> n \<and> n \<le> 102 then Some (n - 87)
         else if 65 \<le> n \<and> n \<le> 70 then Some (n - 55)
         else None)"

definition is_digit :: "int \<Rightarrow> char \<Rightarrow> bool" where
  "is_digit base c = (case digit_value c of None \<Rightarrow> False | Some d \<Rightarrow> d < base)"

definition digits_value :: "int \<Rightarrow> string \<Rightarrow> int" where
  "digits_value base ds =
     foldl (\<lambda>acc c. acc * base + (case digit_value c of None \<Rightarrow> 0 | Some d \<Rightarrow> d)) 0 ds"

definition all_digits :: "int \<Rightarrow> string \<Rightarrow> bool" where
  "all_digits base ds = (ds \<noteq> [] \<and> list_all (is_digit base) ds)"

definition non_decimal_literal :: "string \<Rightarrow> int option" where
  "non_decimal_literal s =
     (case s of
        z # x # ds \<Rightarrow>
          (if z \<noteq> CHR ''0'' then None
           else let base = (if x \<in> set ''bB'' then 2 else if x \<in> set ''oO'' then 8
                            else if x \<in> set ''xX'' then 16 else (0::int))
                in if base \<noteq> 0 \<and> all_digits base ds then Some (digits_value base ds) else None)
      | _ \<Rightarrow> None)"

definition exponent_part :: "string \<Rightarrow> int option" where
  "exponent_part s =
     (case s of
        [] \<Rightarrow> Some 0
      | e # r \<Rightarrow>
          (if e \<notin> set ''eE'' then None
           else let (neg, ds) = (case r of
                                   c # r' \<Rightarrow> if c = CHR ''-'' then (True, r')
                                             else if c = CHR ''+'' then (False, r') else (False, r)
                                 | [] \<Rightarrow> (False, r))
                in if all_digits 10 ds
                   then Some (if neg then - digits_value 10 ds else digits_value 10 ds)
                   else None))"

definition pow10 :: "int \<Rightarrow> rat" where
  "pow10 k = (if 0 \<le> k then 10 ^ nat k else 1 / 10 ^ nat (- k))"

definition unsigned_decimal :: "string \<Rightarrow> rat option" where
  "unsigned_decimal s =
     (let ip = takeWhile (is_digit 10) s;
          r1 = dropWhile (is_digit 10) s;
          (fp, r2) = (case r1 of
                        c # r \<Rightarrow> if c = CHR ''.''
                                  then (takeWhile (is_digit 10) r, dropWhile (is_digit 10) r)
                                  else ([], r1)
                      | [] \<Rightarrow> ([], r1))
      in if ip = [] \<and> fp = [] then None
         else case exponent_part r2 of
                None \<Rightarrow> None
              | Some e \<Rightarrow>
                  Some (of_int (digits_value 10 (ip @ fp)) * pow10 (e - int (length fp))))"

definition string_to_number :: "string \<Rightarrow> jsnum" where
  "string_to_number s =
     (let t = trim s
      in if t = [] then Fin 0
         else case non_decimal_literal t of
                Some n \<Rightarrow> round_double (of_int n)
              | None \<Rightarrow>
                  (let (neg, u) = (case t of
                                     c # r \<Rightarrow> if c = CHR ''-'' then (True, r)
                                               else if c = CHR ''+'' then (False, r) else (False, t)
                                   | [] \<Rightarrow> (False, t));
                       n = (if u = ''Infinity'' then PosInf
                            else case unsigned_decimal u of
                                   None \<Rightarrow> NaN
                                 | Some q \<Rightarrow> round_double q)
                   in if neg then negate n else n))"

fun to_Number :: "jsval \<Rightarrow> jsnum" where
  "to_Number JSUndefined = NaN"
| "to_Number (JSString s) = string_to_number s"
| "to_Number (JSNumber n) = n"
| "to_Number (JSObject kvs) = NaN"

section \<open>The part of zod the schema uses\<close>

subsection \<open>\<^verbatim>\<open>JSON.stringify(value, replacer, 2)\<close>\<close>

text \<open>
  A \<^verbatim>\<open>ZodError\<close> prints its issues with \<^verbatim>\<open>JSON.stringify\<close> and an indentation of two
  spaces. An issue holds strings, booleans, the integer bounds of the schema and arrays
  of strings; a property of an object may be \<^verbatim>\<open>undefined\<close> (\<open>None\<close>) and is then left
  out of the text. Integers print in plain decimal, as JavaScript prints every integer
  below \<open>10^21\<close> in absolute value.
\<close>

datatype json =
    JBool bool
  | JInt int
  | JStr string
  | JArr "json list"
  | JObj "(string \<times> json option) list"

function show_digits :: "int \<Rightarrow> string" where
  "show_digits n =
     (if n < 10 then [char_of (48 + n)]
      else show_digits (n div 10) @ [char_of (48 + n mod 10)])"
  by pat_completeness auto
termination
  by (relation "measure nat") auto

declare show_digits.simps [simp del]

definition show_int :: "int \<Rightarrow> string" where
  "show_int i = (if i < 0 then CHR ''-'' # show_digits (- i) else show_digits i)"

definition hex_digit :: "int \<Rightarrow> char" where
  "hex_digit d = (if d < 10 then char_of (48 + d) else char_of (87 + d))"

definition escape_char :: "char \<Rightarrow> string" where
  "escape_char c =
     (let n = (of_char c :: int)
      in if n = 34 then [CHR 0x5C, CHR 0x22]
         else if n = 92 then [CHR 0x5C, CHR 0x5C]
         else if n = 8 then [CHR 0x5C, CHR ''b'']
         else if n = 9 then [CHR 0x5C, CHR ''t'']
         else if n = 10 then [CHR 0x5C, CHR ''n'']
         else if n = 12 then [CHR 0x5C, CHR ''f'']
         else if n = 13 then [CHR 0x5C, CHR ''r'']
         else if n < 32 then [CHR 0x5C, CHR ''u'', CHR ''0'', CHR ''0'',
                              hex_digit (n div 16), hex_digit (n mod 16)]
         else [c])"

definition quote :: "string \<Rightarrow> string" where
  "quote s = CHR 0x22 # concat (map escape_char s) @ [CHR 0x22]"

definition indent :: "nat \<Rightarrow> string" where
  "indent n = replicate (2 * n) CHR '' ''"

fun join_lines :: "string list \<Rightarrow> string" where
  "join_lines [] = []"
| "join_lines [l] = l"
| "join_lines (l # ls) = l @ [CHR '','', CHR 0x0A] @ join_lines ls"

definition block :: "char \<Rightarrow> char \<Rightarrow> nat \<Rightarrow> string list \<Rightarrow> string" where
  \<comment> \<open>the members, each on a line of its own one level deeper, between the brackets\<close>
  "block opening closing n members =
     (if members = [] then [opening, closing]
      else opening # CHR 0x0A # join_lines (map (\<lambda>m. indent (Suc n) @ m) members)
           @ CHR 0x0A # indent n @ [closing])"

fun stringify :: "nat \<Rightarrow> json \<Rightarrow> string" where
  "stringify n (JBool b) = (if b then ''true'' else ''false'')"
| "stringify n (JInt i) = show_int i"
| "stringify n (JStr s) = quote s"
| "stringify n (JArr xs) = block CHR ''['' CHR '']'' n (map (stringify (Suc n)) xs)"
| "stringify n (JObj ps) =
     block CHR ''{'' CHR ''}'' n
       (concat (map (\<lambda>p. case snd p of
                             None \<Rightarrow> []
                           | Some v \<Rightarrow> [quote (fst p) @ '': '' @ stringify (Suc n) v]) ps))"

subsection \<open>Issues and the default error map\<close>

text \<open>
  \<^verbatim>\<open>getParsedType\<close> names the run-time type of a value; a number that is \<^verbatim>\<open>NaN\<close> has
  the type \<^verbatim>\<open>nan\<close>, an infinite one is a \<^verbatim>\<open>number\<close>.
\<close>

fun getParsedType :: "jsval \<Rightarrow> string" where
  "getParsedType JSUndefined = ''undefined''"
| "getParsedType (JSString s) = ''string''"
| "getParsedType (JSNumber n) = (if n = NaN then ''nan'' else ''number'')"
| "getParsedType (JSObject ps) = ''object''"

type_synonym issue = "(string \<times> json option) list"

definition str_prop :: "issue \<Rightarrow> string \<Rightarrow> string" where
  "str_prop i k = (case map_of i k of Some (Some (JStr s)) \<Rightarrow> s | _ \<Rightarrow> [])"

definition bool_prop :: "issue \<Rightarrow> string \<Rightarrow> bool" where
  "bool_prop i k = (case map_of i k of Some (Some (JBool b)) \<Rightarrow> b | _ \<Rightarrow> False)"

definition int_prop :: "issue \<Rightarrow> string \<Rightarrow> int" where
  "int_prop i k = (case map_of i k of Some (Some (JInt n)) \<Rightarrow> n | _ \<Rightarrow> 0)"

fun join_with :: "string \<Rightarrow> string list \<Rightarrow> string" where
  "join_with sep [] = []"
| "join_with sep [x] = x"
| "join_with sep (x # xs) = x @ sep @ join_with sep xs"

definition joinValues :: "string list \<Rightarrow> string" where
  "joinValues vs = join_with '' | '' (map (\<lambda>v. [CHR 0x27] @ v @ [CHR 0x27]) vs)"

definition errorMap :: "issue \<Rightarrow> string" where
  \<comment> \<open>the messages of zod's English error map for the three codes the schema can raise\<close>
  "errorMap i =
     (let code = str_prop i ''code''
      in if code = ''invalid_type'' then
           (if str_prop i ''received'' = ''undefined'' then ''Required''
            else ''Expected '' @ str_prop i ''expected'' @ '', received '' @ str_prop i ''received'')
         else if code = ''invalid_enum_value'' then
           ''Invalid enum value. Expected ''
             @ joinValues (case map_of i ''options'' of
                             Some (Some (JArr vs)) \<Rightarrow> map (\<lambda>v. case v of JStr s \<Rightarrow> s | _ \<Rightarrow> []) vs
                           | _ \<Rightarrow> [])
             @ '', received '' @ [CHR 0x27] @ str_prop i ''received'' @ [CHR 0x27]
         else if code = ''too_small'' then
           (if str_prop i ''type'' = ''string'' then
              ''String must contain ''
                @ (if bool_prop i ''exact'' then ''exactly''
                   else if bool_prop i ''inclusive'' then ''at least'' else ''over'')
                @ '' '' @ show_int (int_prop i ''minimum'') @ '' character(s)''
            else if str_prop i ''type'' = ''number'' then
              ''Number must be ''
                @ (if bool_prop i ''exact'' then ''exactly equal to ''
                   else if bool_prop i ''inclusive'' then ''greater than or equal to ''
                   else ''greater than '')
                @ show_int (int_prop i ''minimum'')
            else ''Invalid input'')
         else ''Invalid input'')"

definition makeIssue :: "string list \<Rightarrow> issue \<Rightarrow> issue" where
  \<comment> \<open>\<^verbatim>\<open>{ ...issueData, path: fullPath, message: errorMessage }\<close>: a property that the
      issue data already has keeps its place, a new one goes to the end\<close>
  "makeIssue path issueData =
     (let fullIssue = AList.update ''path'' (Some (JArr (map JStr path))) issueData
      in AList.update ''message'' (Some (JStr (errorMap fullIssue))) fullIssue)"

subsection \<open>Schemas and their \<^verbatim>\<open>_parse\<close> methods\<close>

datatype string_check = StrMin int

datatype number_check = NumMin int bool | NumInt

datatype schema =
    ZodEnum "string list"
  | ZodString "string_check list"
  | ZodNumber bool "number_check list"
  | ZodObject "(string \<times> schema) list"

text \<open>The builders, named as the methods of \<^verbatim>\<open>z\<close> that the schema file calls.\<close>

definition z_enum :: "string list \<Rightarrow> schema" where
  "z_enum values = ZodEnum values"

definition z_string :: schema where
  "z_string = ZodString []"

definition z_coerce_number :: schema where
  "z_coerce_number = ZodNumber True []"

definition z_object :: "(string \<times> schema) list \<Rightarrow> schema" where
  "z_object shape = ZodObject shape"

fun z_min :: "int \<Rightarrow> schema \<Rightarrow> schema" where
  "z_min v (ZodString cs) = ZodString (cs @ [StrMin v])"
| "z_min v (ZodNumber c cs) = ZodNumber c (cs @ [NumMin v True])"
| "z_min v s = s"

fun z_positive :: "schema \<Rightarrow> schema" where
  "z_positive (ZodNumber c cs) = ZodNumber c (cs @ [NumMin 0 False])"
| "z_positive s = s"

fun z_int :: "schema \<Rightarrow> schema" where
  "z_int (ZodNumber c cs) = ZodNumber c (cs @ [NumInt])"
| "z_int s = s"

text \<open>
  A parse returns the issues it added to the context and a status with a value:
  \<^verbatim>\<open>aborted\<close> (\<open>INVALID\<close>), \<^verbatim>\<open>dirty\<close> or \<^verbatim>\<open>valid\<close> (\<open>OK\<close>).
\<close>

datatype parse_return = INVALID | DIRTY jsval | OK jsval

fun num_less :: "jsnum \<Rightarrow> rat \<Rightarrow> bool" where
  "num_less NaN v = False"
| "num_less PosInf v = False"
| "num_less NegInf v = True"
| "num_less (Fin q) v = (q < v)"

fun num_less_eq :: "jsnum \<Rightarrow> rat \<Rightarrow> bool" where
  "num_less_eq NaN v = False"
| "num_less_eq PosInf v = False"
| "num_less_eq NegInf v = True"
| "num_less_eq (Fin q) v = (q \<le> v)"

fun isInteger :: "jsnum \<Rightarrow> bool" where
  "isInteger (Fin q) = (of_int \<lfloor>q\<rfloor> = q)"
| "isInteger n = False"

fun string_checks :: "string list \<Rightarrow> string \<Rightarrow> string_check list \<Rightarrow> issue list" where
  "string_checks path s [] = []"
| "string_checks path s (StrMin v # cs) =
     (if int (length s) < v
      then [makeIssue path
              [(''code'', Some (JStr ''too_small'')), (''minimum'', Some (JInt v)),
               (''type'', Some (JStr ''string'')), (''inclusive'', Some (JBool True)),
               (''exact'', Some (JBool False)), (''message'', None)]]
      else [])
     @ string_checks path s cs"

fun number_checks :: "string list \<Rightarrow> jsnum \<Rightarrow> number_check list \<Rightarrow> issue list" where
  "number_checks path n [] = []"
| "number_checks path n (NumInt # cs) =
     (if \<not> isInteger n
      then [makeIssue path
              [(''code'', Some (JStr ''invalid_type'')), (''expected'', Some (JStr ''integer'')),
               (''received'', Some (JStr ''float'')), (''message'', None)]]
      else [])
     @ number_checks path n cs"
| "number_checks path n (NumMin v inclusive # cs) =
     (if (if inclusive then num_less n (of_int v) else num_less_eq n (of_int v))
      then [makeIssue path
              [(''code'', Some (JStr ''too_small'')), (''minimum'', Some (JInt v)),
               (''type'', Some (JStr ''number'')), (''inclusive'', Some (JBool inclusive)),
               (''exact'', Some (JBool False)), (''message'', None)]]
      else [])
     @ number_checks path n cs"

definition invalid_type :: "string list \<Rightarrow> string \<Rightarrow> jsval \<Rightarrow> issue" where
  "invalid_type path expected d =
     makeIssue path
       [(''code'', Some (JStr ''invalid_type'')), (''expected'', Some (JStr expected)),
        (''received'', Some (JStr (getParsedType d)))]"

definition get_prop :: "(string \<times> jsval) list \<Rightarrow> string \<Rightarrow> jsval" where
  \<comment> \<open>\<^verbatim>\<open>data[key]\<close> on the own properties of a plain object\<close>
  "get_prop ps k = (case map_of ps k of None \<Rightarrow> JSUndefined | Some v \<Rightarrow> v)"

fun mergeObjectSync ::
  "bool \<Rightarrow> (string \<times> jsval) list \<Rightarrow> (string \<times> parse_return \<times> bool) list \<Rightarrow> parse_return" where
  "mergeObjectSync dirty finalObject [] =
     (if dirty then DIRTY (JSObject finalObject) else OK (JSObject finalObject))"
| "mergeObjectSync dirty finalObject ((key, INVALID, alwaysSet) # pairs) = INVALID"
| "mergeObjectSync dirty finalObject ((key, DIRTY v, alwaysSet) # pairs) =
     mergeObjectSync True
       (if key \<noteq> ''__proto__'' \<and> (v \<noteq> JSUndefined \<or> alwaysSet)
        then AList.update key v finalObject else finalObject) pairs"
| "mergeObjectSync dirty finalObject ((key, OK v, alwaysSet) # pairs) =
     mergeObjectSync dirty
       (if key \<noteq> ''__proto__'' \<and> (v \<noteq> JSUndefined \<or> alwaysSet)
        then AList.update key v finalObject else finalObject) pairs"

fun parse :: "schema \<Rightarrow> string list \<Rightarrow> jsval \<Rightarrow> issue list \<times> parse_return" where
  "parse (ZodEnum values) path d =
     (case d of
        JSString s \<Rightarrow>
          if s \<in> set values then ([], OK d)
          else ([makeIssue path
                   [(''received'', Some (JStr s)), (''code'', Some (JStr ''invalid_enum_value'')),
                    (''options'', Some (JArr (map JStr values)))]], INVALID)
      | _ \<Rightarrow>
          ([makeIssue path
              [(''expected'', Some (JStr (joinValues values))),
               (''received'', Some (JStr (getParsedType d))),
               (''code'', Some (JStr ''invalid_type''))]], INVALID))"
| "parse (ZodString checks) path d =
     (case d of
        JSString s \<Rightarrow>
          (let issues = string_checks path s checks
           in (issues, if issues = [] then OK d else DIRTY d))
      | _ \<Rightarrow> ([invalid_type path ''string'' d], INVALID))"
| "parse (ZodNumber coerce checks) path d =
     (let d' = (if coerce then JSNumber (to_Number d) else d)
      in case d' of
           JSNumber n \<Rightarrow>
             if n = NaN then ([invalid_type path ''number'' d'], INVALID)
             else (let issues = number_checks path n checks
                   in (issues, if issues = [] then OK d' else DIRTY d'))
         | _ \<Rightarrow> ([invalid_type path ''number'' d'], INVALID))"
| "parse (ZodObject shape) path d =
     (case d of
        JSObject ps \<Rightarrow>
          (let results = map (\<lambda>ks. (fst ks, parse (snd ks) (path @ [fst ks]) (get_prop ps (fst ks))))
                           shape
           in (concat (map (\<lambda>r. fst (snd r)) results),
               mergeObjectSync False []
                 (map (\<lambda>r. (fst r, snd (snd r), fst r \<in> fst ` set ps)) results)))
      | _ \<Rightarrow> ([invalid_type path ''object'' d], INVALID))"

text \<open>
  \<^verbatim>\<open>safeParse\<close> starts at the empty path. It succeeds on a valid status only; otherwise
  it returns a \<^verbatim>\<open>ZodError\<close> with the issues collected, and throws a plain \<^verbatim>\<open>Error\<close> when
  there are none.
\<close>

datatype error = ConfigException string | Error string

datatype safe_parse_result = Success jsval | Failure "issue list"

definition safeParse :: "schema \<Rightarrow> jsval \<Rightarrow> error + safe_parse_result" where
  "safeParse s d =
     (case parse s [] d of
        (issues, OK v) \<Rightarrow> Inr (Success v)
      | (issues, _) \<Rightarrow>
          if issues = [] then Inl (Error ''Validation failed but no issues detected.'')
          else Inr (Failure issues))"

definition ZodError_message :: "issue list \<Rightarrow> string" where
  "ZodError_message issues = stringify 0 (JArr (map JObj issues))"

section \<open>The repository: schema and factory\<close>

subsection \<open>\<^verbatim>\<open>config.schema.ts\<close>\<close>

definition environmentSchema :: schema where
  "environmentSchema = z_enum [''development'', ''production'']"

definition databaseSchema :: schema where
  "databaseSchema = z_object
     [(''host'', z_min 1 z_string),
      (''database'', z_min 1 z_string),
      (''password'', z_min 1 z_string),
      (''port'', z_min 1 z_coerce_number),
      (''username'', z_min 1 z_string)]"

definition configSchema :: schema where
  "configSchema = z_object
     [(''env'', environmentSchema),
      (''port'', z_int (z_positive z_coerce_number)),
      (''database'', databaseSchema)]"

subsection \<open>\<^verbatim>\<open>config.factory.ts\<close>\<close>

type_synonym process_env = "string \<rightharpoonup> string"

definition env_var :: "process_env \<Rightarrow> string \<Rightarrow> jsval" where
  \<comment> \<open>\<^verbatim>\<open>process.env.NAME\<close>: the string, or \<^verbatim>\<open>undefined\<close> when the variable is not set\<close>
  "env_var env name = (case env name of None \<Rightarrow> JSUndefined | Some s \<Rightarrow> JSString s)"

definition raw_config :: "process_env \<Rightarrow> jsval" where
  "raw_config env = JSObject
     [(''env'', env_var env ''NODE_ENV''),
      (''port'', env_var env ''PORT''),
      (''database'', JSObject
         [(''host'', env_var env ''DATABASE_HOST''),
          (''port'', env_var env ''DATABASE_PORT''),
          (''username'', env_var env ''DATABASE_USERNAME''),
          (''password'', env_var env ''DATABASE_PASSWORD''),
          (''database'', env_var env ''DATABASE_NAME'')])]"

definition configFactory :: "process_env \<Rightarrow> error + jsval" where
  "configFactory env =
     (case safeParse configSchema (raw_config env) of
        Inl e \<Rightarrow> Inl e
      | Inr (Failure issues) \<Rightarrow>
          Inl (ConfigException (''Configuration file error: '' @ ZodError_message issues))
      | Inr (Success data) \<Rightarrow> Inr data)"

section \<open>Fields of the configuration\<close>

text \<open>
  The claims speak of the fields of the configuration one by one. A field is a path to a
  leaf of \<open>configSchema\<close>; its schema and its raw value are read off the schema and off
  the object the factory builds, and \<open>field_parse\<close> is the parse zod runs for it.
\<close>

fun leaf_paths :: "schema \<Rightarrow> string list list" where
  "leaf_paths (ZodObject shape) =
     concat (map (\<lambda>ks. map ((#) (fst ks)) (leaf_paths (snd ks))) shape)"
| "leaf_paths s = [[]]"

fun schema_at :: "schema \<Rightarrow> string list \<Rightarrow> schema option" where
  "schema_at s [] = Some s"
| "schema_at (ZodObject shape) (k # ks) =
     (case map_of shape k of None \<Rightarrow> None | Some s \<Rightarrow> schema_at s ks)"
| "schema_at s (k # ks) = None"

fun value_at :: "jsval \<Rightarrow> string list \<Rightarrow> jsval" where
  "value_at v [] = v"
| "value_at (JSObject ps) (k # ks) = value_at (get_prop ps k) ks"
| "value_at v (k # ks) = JSUndefined"

fun is_OK :: "parse_return \<Rightarrow> bool" where
  "is_OK (OK v) = True"
| "is_OK r = False"

definition field_parse :: "process_env \<Rightarrow> string list \<Rightarrow> issue list \<times> parse_return" where
  "field_parse env p =
     (case schema_at configSchema p of
        None \<Rightarrow> ([], INVALID)
      | Some s \<Rightarrow> parse s p (value_at (raw_config env) p))"

definition field_ok :: "process_env \<Rightarrow> string list \<Rightarrow> bool" where
  "field_ok env p = is_OK (snd (field_parse env p))"

definition field_issues :: "process_env \<Rightarrow> string list \<Rightarrow> issue list" where
  "field_issues env p = fst (field_parse env p)"

definition all_issues :: "process_env \<Rightarrow> issue list" where
  \<comment> \<open>the issues of every field, in the order of the schema\<close>
  "all_issues env = concat (map (field_issues env) (leaf_paths configSchema))"

definition has_path :: "string list \<Rightarrow> issue \<Rightarrow> bool" where
  "has_path p i = (map_of i ''path'' = Some (Some (JArr (map JStr p))))"

definition path_text :: "string list \<Rightarrow> string" where
  \<comment> \<open>the line(s) of the message that print the path of an issue\<close>
  "path_text p = indent 2 @ quote ''path'' @ '': '' @ stringify 2 (JArr (map JStr p))"

definition positive_integer :: "jsnum \<Rightarrow> bool" where
  "positive_integer n = (case n of Fin q \<Rightarrow> 0 < q \<and> of_int \<lfloor>q\<rfloor> = q | _ \<Rightarrow> False)"

definition loaded_config :: "process_env \<Rightarrow> jsval" where
  \<comment> \<open>every field with its coerced input value, in the key order of the schema\<close>
  "loaded_config env = JSObject
     [(''env'', env_var env ''NODE_ENV''),
      (''port'', JSNumber (to_Number (env_var env ''PORT''))),
      (''database'', JSObject
         [(''host'', env_var env ''DATABASE_HOST''),
          (''database'', env_var env ''DATABASE_NAME''),
          (''password'', env_var env ''DATABASE_PASSWORD''),
          (''port'', JSNumber (to_Number (env_var env ''DATABASE_PORT''))),
          (''username'', env_var env ''DATABASE_USERNAME'')])]"

definition example_env :: process_env where
  "example_env =
     [''NODE_ENV'' \<mapsto> ''development'', ''PORT'' \<mapsto> ''3000'',
      ''DATABASE_HOST'' \<mapsto> ''localhost'', ''DATABASE_PORT'' \<mapsto> ''5432'',
      ''DATABASE_USERNAME'' \<mapsto> ''postgres'', ''DATABASE_PASSWORD'' \<mapsto> ''postgres'',
      ''DATABASE_NAME'' \<mapsto> ''postgres'']"

definition config_vars :: "(string \<times> string list) list" where
  \<comment> \<open>the seven variables the factory reads, each with the field it fills\<close>
  "config_vars =
     [(''NODE_ENV'', [''env'']),
      (''PORT'', [''port'']),
      (''DATABASE_HOST'', [''database'', ''host'']),
      (''DATABASE_PORT'', [''database'', ''port'']),
      (''DATABASE_USERNAME'', [''database'', ''username'']),
      (''DATABASE_PASSWORD'', [''database'', ''password'']),
      (''DATABASE_NAME'', [''database'', ''database''])]"

definition non_empty :: "string option \<Rightarrow> bool" where
  "non_empty v = (case v of None \<Rightarrow> False | Some s \<Rightarrow> s \<noteq> [])"

definition accepted :: "schema \<Rightarrow> jsval \<Rightarrow> bool" where
  \<comment> \<open>\<^verbatim>\<open>schema.safeParse(value).success\<close>\<close>
  "accepted s d = (case safeParse s d of Inr (Success v) \<Rightarrow> True | _ \<Rightarrow> False)"

definition valid_env :: "process_env \<Rightarrow> bool" where
  \<comment> \<open>the valid environments of the specification: both ports are positive integers
      once coerced\<close>
  "valid_env env =
     (env ''NODE_ENV'' \<in> {Some ''development'', Some ''production''}
      \<and> positive_integer (to_Number (env_var env ''PORT''))
      \<and> positive_integer (to_Number (env_var env ''DATABASE_PORT''))
      \<and> non_empty (env ''DATABASE_HOST'') \<and> non_empty (env ''DATABASE_USERNAME'')
      \<and> non_empty (env ''DATABASE_PASSWORD'') \<and> non_empty (env ''DATABASE_NAME''))"

definition schema_constraints :: "process_env \<Rightarrow> bool" where
  \<comment> \<open>the constraints as \<open>configSchema\<close> declares them: the database port is a number
      that is at least \<open>1\<close>\<close>
  "schema_constraints env =
     (env ''NODE_ENV'' \<in> {Some ''development'', Some ''production''}
      \<and> positive_integer (to_Number (env_var env ''PORT''))
      \<and> to_Number (env_var env ''DATABASE_PORT'') \<noteq> NaN
      \<and> \<not> num_less (to_Number (env_var env ''DATABASE_PORT'')) 1
      \<and> non_empty (env ''DATABASE_HOST'') \<and> non_empty (env ''DATABASE_USERNAME'')
      \<and> non_empty (env ''DATABASE_PASSWORD'') \<and> non_empty (env ''DATABASE_NAME''))"

section \<open>State kept between two calls of the factory\<close>

text \<open>
  The factory reads \<^verbatim>\<open>process.env\<close> and never assigns to it. The state that a call
  does change is inside zod: the three schema objects of \<^verbatim>\<open>config.schema.ts\<close> are created
  once, when the module is loaded, and each keeps a cache that its first parse fills and
  every later parse reads. A \<^verbatim>\<open>ZodObject\<close> caches the keys of its shape
  (\<^verbatim>\<open>_getCached\<close>; the shape it caches with them is the schema's own), a \<^verbatim>\<open>ZodEnum\<close>
  caches the set of its values when it first tests a string (zod 3.23 and later).
  Each schema object stands at one place of \<open>configSchema\<close>, so its path names it.
  \<open>parse_st\<close> is \<^verbatim>\<open>_parse\<close> with these caches as explicit state; a key of the cache that
  the shape does not have makes \<^verbatim>\<open>shape[key]._parse\<close> throw a \<^verbatim>\<open>TypeError\<close>, an error
  that is no \<^verbatim>\<open>ConfigException\<close> (the model keeps the start of its message).
\<close>

type_synonym caches = "string list \<rightharpoonup> string list"

fun weight :: "schema \<Rightarrow> nat" where
  "weight (ZodObject shape) = Suc (sum_list (map (\<lambda>ks. weight (snd ks)) shape))"
| "weight s = 0"

function parse_st ::
    "schema \<Rightarrow> string list \<Rightarrow> jsval \<Rightarrow> caches \<Rightarrow> (error + issue list \<times> parse_return) \<times> caches"
  and parse_keys_st ::
    "(string \<times> schema) list \<Rightarrow> string list \<Rightarrow> string list \<Rightarrow> (string \<times> jsval) list \<Rightarrow> caches
       \<Rightarrow> (error + issue list \<times> (string \<times> parse_return \<times> bool) list) \<times> caches"
where
  "parse_st (ZodEnum values) path d c =
     (case d of
        JSString s \<Rightarrow>
          (let cache = (case c path of None \<Rightarrow> values | Some cache \<Rightarrow> cache);
               c' = c(path \<mapsto> cache)
           in if s \<in> set cache then (Inr ([], OK d), c')
              else (Inr ([makeIssue path
                            [(''received'', Some (JStr s)),
                             (''code'', Some (JStr ''invalid_enum_value'')),
                             (''options'', Some (JArr (map JStr values)))]], INVALID), c'))
      | _ \<Rightarrow> (Inr (parse (ZodEnum values) path d), c))"
| "parse_st (ZodString checks) path d c = (Inr (parse (ZodString checks) path d), c)"
| "parse_st (ZodNumber coerce checks) path d c = (Inr (parse (ZodNumber coerce checks) path d), c)"
| "parse_st (ZodObject shape) path d c =
     (case d of
        JSObject ps \<Rightarrow>
          (let keys = (case c path of None \<Rightarrow> map fst shape | Some keys \<Rightarrow> keys);
               c' = c(path \<mapsto> keys)
           in case parse_keys_st shape keys path ps c' of
                (Inl e, c'') \<Rightarrow> (Inl e, c'')
              | (Inr (issues, pairs), c'') \<Rightarrow> (Inr (issues, mergeObjectSync False [] pairs), c''))
      | _ \<Rightarrow> (Inr ([invalid_type path ''object'' d], INVALID), c))"
| "parse_keys_st shape [] path ps c = (Inr ([], []), c)"
| "parse_keys_st shape (key # keys) path ps c =
     (case map_of shape key of
        None \<Rightarrow> (Inl (Error ''Cannot read properties of undefined''), c)
      | Some keyValidator \<Rightarrow>
          (case parse_st keyValidator (path @ [key]) (get_prop ps key) c of
             (Inl e, c') \<Rightarrow> (Inl e, c')
           | (Inr (issues, r), c') \<Rightarrow>
               (case parse_keys_st shape keys path ps c' of
                  (Inl e, c'') \<Rightarrow> (Inl e, c'')
                | (Inr (issues', pairs), c'') \<Rightarrow>
                    (Inr (issues @ issues', (key, r, key \<in> fst ` set ps) # pairs), c''))))"
  by pat_completeness auto

termination
proof -
  have less: "weight s < weight (ZodObject shape)" if "map_of shape k = Some s" for shape k s
  proof -
    have "(k, s) \<in> set shape" using that by (rule map_of_SomeD)
    then have "weight s \<le> sum_list (map (\<lambda>ks. weight (snd ks)) shape)"
      by (induction shape) auto
    then show ?thesis by simp
  qed
  show ?thesis
    by (relation "measures
          [\<lambda>x. case x of Inl (s, _) \<Rightarrow> 2 * weight s + 1
                        | Inr (shape, _) \<Rightarrow> 2 * weight (ZodObject shape),
           \<lambda>x. case x of Inl _ \<Rightarrow> 0 | Inr (_, keys, _) \<Rightarrow> length keys]")
       (auto dest: less)
qed

text \<open>
  \<open>safeParse_st\<close> and \<open>configFactory_st\<close> are \<^verbatim>\<open>safeParse\<close> and the factory on that
  state; a process is its environment together with the caches of the schema objects.
\<close>

definition safeParse_st ::
    "schema \<Rightarrow> jsval \<Rightarrow> caches \<Rightarrow> (error + safe_parse_result) \<times> caches" where
  "safeParse_st s d c =
     (case parse_st s [] d c of
        (Inl e, c') \<Rightarrow> (Inl e, c')
      | (Inr (issues, OK v), c') \<Rightarrow> (Inr (Success v), c')
      | (Inr (issues, _), c') \<Rightarrow>
          (if issues = [] then Inl (Error ''Validation failed but no issues detected.'')
           else Inr (Failure issues), c'))"

record process =
  process_env :: process_env
  schema_caches :: caches

definition configFactory_st :: "process \<Rightarrow> (error + jsval) \<times> process" where
  "configFactory_st ps =
     (case safeParse_st configSchema (raw_config (process_env ps)) (schema_caches ps) of
        (result, c') \<Rightarrow>
          ((case result of
              Inl e \<Rightarrow> Inl e
            | Inr (Failure issues) \<Rightarrow>
                Inl (ConfigException (''Configuration file error: '' @ ZodError_message issues))
            | Inr (Success data) \<Rightarrow> Inr data),
           ps\<lparr>schema_caches := c'\<rparr>))"

text \<open>
  A cache is sound when it holds what the schema object at its path would compute; the
  caches of a fresh process are empty.
\<close>

definition caches_ok :: "schema \<Rightarrow> caches \<Rightarrow> bool" where
  "caches_ok whole c =
     (\<forall>p l. c p = Some l \<longrightarrow>
        (case schema_at whole p of
           Some (ZodObject shape) \<Rightarrow> l = map fst shape
         | Some (ZodEnum values) \<Rightarrow> l = values
         | _ \<Rightarrow> True))"

definition database_keys :: "string list" where
  "database_keys = [''host'', ''database'', ''password'', ''port'', ''username'']"

definition config_keys :: "string list" where
  "config_keys = [''env'', ''port'', ''database'']"

definition enum_values :: "string list" where
  "enum_values = [''development'', ''production'']"

definition caches_after :: "process_env \<Rightarrow> caches \<Rightarrow> caches" where
  "caches_after env c =
     (let c1 = c([] \<mapsto> config_keys);
          c2 = (case env ''NODE_ENV'' of None \<Rightarrow> c1 | Some s \<Rightarrow> c1([''env''] \<mapsto> enum_values))
      in c2([''database''] \<mapsto> database_keys))"

definition fresh_process :: "process_env \<Rightarrow> process" where
  "fresh_process env = \<lparr>process_env = env, schema_caches = Map.empty\<rparr>"

definition broken_env :: process_env where
  "broken_env = example_env(''NODE_ENV'' \<mapsto> ''staging'', ''PORT'' \<mapsto> ''-1.5'',
                            ''DATABASE_HOST'' \<mapsto> [])"

section \<open>Properties of the zod model\<close>

subsection \<open>Issues carry the path of their field\<close>

lemma has_path_makeIssue: "has_path p (makeIssue p d)"
  by (simp add: has_path_def makeIssue_def Let_def update_conv')

lemma string_checks_path: "i \<in> set (string_checks p s cs) \<Longrightarrow> has_path p i"
  by (induction p s cs rule: string_checks.induct) (auto simp: has_path_makeIssue split: if_splits)

lemma number_checks_path: "i \<in> set (number_checks p n cs) \<Longrightarrow> has_path p i"
  by (induction p n cs rule: number_checks.induct) (auto simp: has_path_makeIssue split: if_splits)

lemma leaf_issue_path:
  assumes "\<forall>shape. s \<noteq> ZodObject shape" and "i \<in> set (fst (parse s p d))"
  shows "has_path p i"
  using assms
  by (cases s; cases d)
     (auto simp: has_path_makeIssue invalid_type_def Let_def
           dest: string_checks_path number_checks_path split: if_splits jsval.splits)

lemma leaf_OK_iff:
  assumes "\<forall>shape. s \<noteq> ZodObject shape"
  shows "is_OK (snd (parse s p d)) \<longleftrightarrow> fst (parse s p d) = []"
  using assms
  by (cases s; cases d) (auto simp: Let_def split: if_splits jsval.splits)

lemma config_leaf_paths:
  "leaf_paths configSchema =
     [[''env''], [''port''], [''database'', ''host''], [''database'', ''database''],
      [''database'', ''password''], [''database'', ''port''], [''database'', ''username'']]"
  by (simp add: configSchema_def databaseSchema_def environmentSchema_def z_object_def
      z_enum_def z_string_def z_coerce_number_def)

lemma config_schema_at:
  "schema_at configSchema [''env''] = Some environmentSchema"
  "schema_at configSchema [''port''] = Some (z_int (z_positive z_coerce_number))"
  "schema_at configSchema [''database'', ''host''] = Some (z_min 1 z_string)"
  "schema_at configSchema [''database'', ''database''] = Some (z_min 1 z_string)"
  "schema_at configSchema [''database'', ''password''] = Some (z_min 1 z_string)"
  "schema_at configSchema [''database'', ''port''] = Some (z_min 1 z_coerce_number)"
  "schema_at configSchema [''database'', ''username''] = Some (z_min 1 z_string)"
  by (simp_all add: configSchema_def databaseSchema_def z_object_def)

lemma config_value_at:
  "value_at (raw_config env) [''env''] = env_var env ''NODE_ENV''"
  "value_at (raw_config env) [''port''] = env_var env ''PORT''"
  "value_at (raw_config env) [''database'', ''host''] = env_var env ''DATABASE_HOST''"
  "value_at (raw_config env) [''database'', ''database''] = env_var env ''DATABASE_NAME''"
  "value_at (raw_config env) [''database'', ''password''] = env_var env ''DATABASE_PASSWORD''"
  "value_at (raw_config env) [''database'', ''port''] = env_var env ''DATABASE_PORT''"
  "value_at (raw_config env) [''database'', ''username''] = env_var env ''DATABASE_USERNAME''"
  by (simp_all add: raw_config_def get_prop_def)

lemma parse_config_unfold:
  "parse configSchema [] (raw_config env) =
     (field_issues env [''env''] @ field_issues env [''port'']
        @ field_issues env [''database'', ''host''] @ field_issues env [''database'', ''database'']
        @ field_issues env [''database'', ''password''] @ field_issues env [''database'', ''port'']
        @ field_issues env [''database'', ''username''],
      mergeObjectSync False []
        [(''env'', snd (field_parse env [''env'']), True),
         (''port'', snd (field_parse env [''port'']), True),
         (''database'',
            mergeObjectSync False []
              [(''host'', snd (field_parse env [''database'', ''host'']), True),
               (''database'', snd (field_parse env [''database'', ''database'']), True),
               (''password'', snd (field_parse env [''database'', ''password'']), True),
               (''port'', snd (field_parse env [''database'', ''port'']), True),
               (''username'', snd (field_parse env [''database'', ''username'']), True)],
            True)])"
  by (simp add: field_issues_def field_parse_def config_schema_at config_value_at)
     (simp add: configSchema_def databaseSchema_def raw_config_def z_object_def get_prop_def)


lemma merge_not_OK:
  "dirty \<or> (\<exists>x\<in>set pairs. \<not> is_OK (fst (snd x))) \<Longrightarrow> \<not> is_OK (mergeObjectSync dirty obj pairs)"
  by (induction dirty obj pairs rule: mergeObjectSync.induct) auto

lemma is_OK_D: "is_OK r \<Longrightarrow> \<exists>v. r = OK v"
  by (cases r) auto

lemma parse_enum_result:
  "snd (parse environmentSchema p d) =
     (if d = JSString ''development'' \<or> d = JSString ''production'' then OK d else INVALID)"
  by (cases d) (auto simp: environmentSchema_def z_enum_def)

lemma parse_port_result:
  "snd (parse (z_int (z_positive z_coerce_number)) p d) =
     (if positive_integer (to_Number d) then OK (JSNumber (to_Number d))
      else if to_Number d = NaN then INVALID else DIRTY (JSNumber (to_Number d)))"
  by (cases "to_Number d") (auto simp: z_coerce_number_def positive_integer_def Let_def)

lemma parse_db_port_result:
  "snd (parse (z_min 1 z_coerce_number) p d) =
     (if to_Number d = NaN then INVALID
      else if num_less (to_Number d) 1 then DIRTY (JSNumber (to_Number d))
      else OK (JSNumber (to_Number d)))"
  by (cases "to_Number d") (auto simp: z_coerce_number_def Let_def)

lemma parse_string_result:
  "snd (parse (z_min 1 z_string) p d) =
     (case d of JSString s \<Rightarrow> if s = [] then DIRTY d else OK d | _ \<Rightarrow> INVALID)"
  by (cases d) (auto simp: z_string_def Let_def)

lemma field_ok_env:
  "field_ok env [''env''] \<longleftrightarrow> env ''NODE_ENV'' \<in> {Some ''development'', Some ''production''}"
  by (auto simp: field_ok_def field_parse_def config_schema_at config_value_at parse_enum_result
      env_var_def split: option.splits)

lemma field_ok_port:
  "field_ok env [''port''] \<longleftrightarrow> positive_integer (to_Number (env_var env ''PORT''))"
  by (simp add: field_ok_def field_parse_def config_schema_at config_value_at parse_port_result)

lemma field_ok_db_port:
  "field_ok env [''database'', ''port''] \<longleftrightarrow>
     to_Number (env_var env ''DATABASE_PORT'') \<noteq> NaN
     \<and> \<not> num_less (to_Number (env_var env ''DATABASE_PORT'')) 1"
  by (simp add: field_ok_def field_parse_def config_schema_at config_value_at parse_db_port_result)

lemma field_ok_string:
  "field_ok env [''database'', ''host''] \<longleftrightarrow> (\<exists>s. env ''DATABASE_HOST'' = Some s \<and> s \<noteq> [])"
  "field_ok env [''database'', ''database''] \<longleftrightarrow> (\<exists>s. env ''DATABASE_NAME'' = Some s \<and> s \<noteq> [])"
  "field_ok env [''database'', ''password''] \<longleftrightarrow> (\<exists>s. env ''DATABASE_PASSWORD'' = Some s \<and> s \<noteq> [])"
  "field_ok env [''database'', ''username''] \<longleftrightarrow> (\<exists>s. env ''DATABASE_USERNAME'' = Some s \<and> s \<noteq> [])"
  by (auto simp: field_ok_def field_parse_def config_schema_at config_value_at parse_string_result
      env_var_def split: option.splits)

lemma parse_config_OK:
  assumes "\<forall>p\<in>set (leaf_paths configSchema). field_ok env p"
  shows "snd (parse configSchema [] (raw_config env)) = OK (loaded_config env)"
proof -
  have ok: "field_ok env [''env'']" "field_ok env [''port'']" "field_ok env [''database'', ''host'']"
    "field_ok env [''database'', ''database'']" "field_ok env [''database'', ''password'']"
    "field_ok env [''database'', ''port'']" "field_ok env [''database'', ''username'']"
    using assms by (simp_all add: config_leaf_paths)
  have v: "snd (field_parse env [''env'']) = OK (env_var env ''NODE_ENV'')"
    "snd (field_parse env [''port'']) = OK (JSNumber (to_Number (env_var env ''PORT'')))"
    "snd (field_parse env [''database'', ''host'']) = OK (env_var env ''DATABASE_HOST'')"
    "snd (field_parse env [''database'', ''database'']) = OK (env_var env ''DATABASE_NAME'')"
    "snd (field_parse env [''database'', ''password'']) = OK (env_var env ''DATABASE_PASSWORD'')"
    "snd (field_parse env [''database'', ''port'']) = OK (JSNumber (to_Number (env_var env ''DATABASE_PORT'')))"
    "snd (field_parse env [''database'', ''username'']) = OK (env_var env ''DATABASE_USERNAME'')"
    using ok
    by (auto simp: field_ok_def field_parse_def config_schema_at config_value_at
        parse_enum_result parse_port_result parse_db_port_result parse_string_result
        split: if_splits jsval.splits)
  show ?thesis
    by (simp add: parse_config_unfold v loaded_config_def)
qed

lemma parse_config_not_OK:
  assumes "p \<in> set (leaf_paths configSchema)" "\<not> field_ok env p"
  shows "\<not> is_OK (snd (parse configSchema [] (raw_config env)))"
proof -
  let ?db = "mergeObjectSync False []
              [(''host'', snd (field_parse env [''database'', ''host'']), True),
               (''database'', snd (field_parse env [''database'', ''database'']), True),
               (''password'', snd (field_parse env [''database'', ''password'']), True),
               (''port'', snd (field_parse env [''database'', ''port'']), True),
               (''username'', snd (field_parse env [''database'', ''username'']), True)]"
  consider "p = [''env'']" | "p = [''port'']" | "\<exists>k. p = [''database'', k]"
    using assms(1) by (auto simp: config_leaf_paths)
  then show ?thesis
  proof cases
    case 1
    then show ?thesis using assms(2)
      by (simp add: parse_config_unfold field_ok_def merge_not_OK)
  next
    case 2
    then show ?thesis using assms(2)
      by (simp add: parse_config_unfold field_ok_def merge_not_OK)
  next
    case 3
    then have "\<not> is_OK ?db"
      using assms by (intro merge_not_OK) (auto simp: config_leaf_paths field_ok_def)
    then show ?thesis
      by (simp add: parse_config_unfold merge_not_OK)
  qed
qed

subsection \<open>The text of the message\<close>

lemma sublist_join_lines: "l \<in> set ls \<Longrightarrow> sublist l (join_lines ls)"
proof (induction ls rule: join_lines.induct)
  case 1
  then show ?case by simp
next
  case (2 l')
  then show ?case by simp
next
  case (3 l' v va)
  show ?case
  proof (cases "l = l'")
    case True
    then show ?thesis by simp
  next
    case False
    then have "sublist l (join_lines (v # va))" using 3 by simp
    then obtain ps ss where "join_lines (v # va) = ps @ l @ ss" by (auto simp: sublist_def)
    then have "join_lines (l' # v # va) = (l' @ [CHR '','', CHR 0x0A] @ ps) @ l @ ss" by simp
    then show ?thesis unfolding sublist_def by blast
  qed
qed

lemma sublist_block:
  assumes "m \<in> set ms"
  shows "sublist (indent (Suc n) @ m) (block a b n ms)"
proof -
  have "indent (Suc n) @ m \<in> set (map (\<lambda>m. indent (Suc n) @ m) ms)"
    using assms by simp
  then have "sublist (indent (Suc n) @ m) (join_lines (map (\<lambda>m. indent (Suc n) @ m) ms))"
    by (rule sublist_join_lines)
  then obtain ps ss where
    "join_lines (map (\<lambda>m. indent (Suc n) @ m) ms) = ps @ (indent (Suc n) @ m) @ ss"
    by (auto simp: sublist_def)
  moreover have "ms \<noteq> []" using assms by auto
  ultimately have "block a b n ms
      = (a # CHR 0x0A # ps) @ (indent (Suc n) @ m) @ (ss @ CHR 0x0A # indent n @ [b])"
    by (simp add: block_def)
  then show ?thesis unfolding sublist_def by blast
qed

lemma sublist_trans': "sublist xs ys \<Longrightarrow> sublist ys zs \<Longrightarrow> sublist xs zs"
  by (meson sublist_order.order_trans)

lemma message_mentions_path:
  assumes "i \<in> set issues" "has_path p i"
  shows "sublist (path_text p) (ZodError_message issues)"
proof -
  let ?member = "quote ''path'' @ '': '' @ stringify 2 (JArr (map JStr p))"
  have "(''path'', Some (JArr (map JStr p))) \<in> set i"
    using assms(2) by (auto simp: has_path_def dest: map_of_SomeD)
  then have "?member \<in> set (concat (map (\<lambda>p. case snd p of None \<Rightarrow> []
                | Some v \<Rightarrow> [quote (fst p) @ '': '' @ stringify 2 v]) i))"
    by force
  then have "sublist (indent 2 @ ?member) (stringify 1 (JObj i))"
    using sublist_block[where n = 1] by (simp add: numeral_2_eq_2)
  moreover have "sublist (indent 1 @ stringify 1 (JObj i)) (ZodError_message issues)"
    unfolding ZodError_message_def using assms(1) sublist_block[where n = 0]
    by simp
  ultimately show ?thesis
    unfolding path_text_def
    by (meson sublist_trans' sublist_append_leftI)
qed

subsection \<open>The factory on all fields\<close>

lemma config_leaf_not_object:
  assumes "p \<in> set (leaf_paths configSchema)"
  shows "\<exists>s. schema_at configSchema p = Some s \<and> (\<forall>shape. s \<noteq> ZodObject shape)"
proof -
  have "\<forall>shape. environmentSchema \<noteq> ZodObject shape"
    "\<forall>shape. z_int (z_positive z_coerce_number) \<noteq> ZodObject shape"
    "\<forall>shape. z_min 1 z_string \<noteq> ZodObject shape"
    "\<forall>shape. z_min 1 z_coerce_number \<noteq> ZodObject shape"
    by (simp_all add: environmentSchema_def z_enum_def z_string_def z_coerce_number_def)
  then show ?thesis
    using assms unfolding config_leaf_paths by (auto simp: config_schema_at)
qed

lemma field_issue_path:
  assumes "p \<in> set (leaf_paths configSchema)" "i \<in> set (field_issues env p)"
  shows "has_path p i"
proof -
  obtain s where s: "schema_at configSchema p = Some s" "\<forall>shape. s \<noteq> ZodObject shape"
    using config_leaf_not_object[OF assms(1)] by blast
  have "i \<in> set (fst (parse s p (value_at (raw_config env) p)))"
    using assms(2) s(1) by (simp add: field_issues_def field_parse_def)
  with s(2) show ?thesis by (rule leaf_issue_path)
qed

lemma field_ok_iff_no_issues:
  assumes "p \<in> set (leaf_paths configSchema)"
  shows "field_ok env p \<longleftrightarrow> field_issues env p = []"
proof -
  obtain s where s: "schema_at configSchema p = Some s" "\<forall>shape. s \<noteq> ZodObject shape"
    using config_leaf_not_object[OF assms(1)] by blast
  show ?thesis
    using leaf_OK_iff[OF s(2)] s(1) by (simp add: field_ok_def field_issues_def field_parse_def)
qed

lemma parse_config_issues: "fst (parse configSchema [] (raw_config env)) = all_issues env"
  by (simp add: parse_config_unfold all_issues_def config_leaf_paths)

lemma configFactory_success:
  assumes "\<forall>p\<in>set (leaf_paths configSchema). field_ok env p"
  shows "configFactory env = Inr (loaded_config env)"
proof -
  have "parse configSchema [] (raw_config env) = (all_issues env, OK (loaded_config env))"
    using parse_config_OK[OF assms] parse_config_issues[of env]
    by (simp add: prod_eq_iff)
  then show ?thesis by (simp add: configFactory_def safeParse_def)
qed

lemma configFactory_failure:
  assumes "p \<in> set (leaf_paths configSchema)" "\<not> field_ok env p"
  shows "configFactory env =
           Inl (ConfigException (''Configuration file error: '' @ ZodError_message (all_issues env)))"
proof -
  have "field_issues env p \<noteq> []"
    using assms field_ok_iff_no_issues by blast
  then have ne: "all_issues env \<noteq> []"
    using assms(1) by (auto simp: all_issues_def)
  define r where "r = snd (parse configSchema [] (raw_config env))"
  have r: "parse configSchema [] (raw_config env) = (all_issues env, r)"
    using parse_config_issues[of env] by (simp add: r_def prod_eq_iff)
  have "\<not> is_OK r"
    unfolding r_def using assms by (rule parse_config_not_OK)
  then show ?thesis using ne r
    by (cases r) (simp_all add: configFactory_def safeParse_def)
qed

lemma non_empty_iff: "non_empty v \<longleftrightarrow> (\<exists>s. v = Some s \<and> s \<noteq> [])"
  by (cases v) (auto simp: non_empty_def)

lemma schema_constraints_iff:
  "schema_constraints env \<longleftrightarrow> (\<forall>p\<in>set (leaf_paths configSchema). field_ok env p)"
  by (simp add: config_leaf_paths field_ok_env field_ok_port field_ok_db_port field_ok_string
      schema_constraints_def non_empty_iff) blast

lemma positive_integer_at_least_one:
  "positive_integer n \<Longrightarrow> n \<noteq> NaN \<and> \<not> num_less n 1"
proof (cases n)
  case (Fin q)
  assume "positive_integer n"
  then have q: "0 < q" "of_int \<lfloor>q\<rfloor> = q" using Fin by (simp_all add: positive_integer_def)
  then have "0 < \<lfloor>q\<rfloor>" by linarith
  then have "1 \<le> \<lfloor>q\<rfloor>" by simp
  then have "1 \<le> q" using q(2) by (metis of_int_1_le_iff)
  then show ?thesis using Fin by simp
qed (simp_all add: positive_integer_def)

lemma valid_env_constraints: "valid_env env \<Longrightarrow> schema_constraints env"
  by (simp add: valid_env_def schema_constraints_def positive_integer_at_least_one)

lemma configFactory_cases:
  "(schema_constraints env \<and> configFactory env = Inr (loaded_config env))
   \<or> (\<not> schema_constraints env
       \<and> configFactory env = Inl (ConfigException
            (''Configuration file error: '' @ ZodError_message (all_issues env))))"
  using configFactory_success[of env] configFactory_failure[of _ env]
  unfolding schema_constraints_iff by blast

lemma accepted_iff: "accepted s d \<longleftrightarrow> is_OK (snd (parse s [] d))"
proof -
  obtain issues r where "parse s [] d = (issues, r)" by (cases "parse s [] d")
  then show ?thesis by (cases r) (simp_all add: accepted_def safeParse_def)
qed

lemma missing_not_ok:
  assumes "(n, p) \<in> set config_vars" "env n = None"
  shows "p \<in> set (leaf_paths configSchema) \<and> \<not> field_ok env p"
  using assms
  by (auto simp: config_vars_def config_leaf_paths field_ok_env field_ok_port field_ok_db_port
      field_ok_string env_var_def positive_integer_def)

lemma failing_field_mentioned:
  assumes "p \<in> set (leaf_paths configSchema)" "\<not> field_ok env p"
  shows "(\<exists>i\<in>set (all_issues env). has_path p i)
         \<and> sublist (path_text p) (ZodError_message (all_issues env))"
proof -
  have "field_issues env p \<noteq> []"
    using assms field_ok_iff_no_issues by blast
  then obtain i where i: "i \<in> set (field_issues env p)"
    by (cases "field_issues env p") auto
  then have "i \<in> set (all_issues env)"
    using assms(1) by (auto simp: all_issues_def)
  moreover have "has_path p i"
    using assms(1) i by (rule field_issue_path)
  ultimately show ?thesis
    using message_mentions_path by blast
qed

lemma not_constraints_fails:
  "\<not> schema_constraints env \<Longrightarrow> \<exists>msg. configFactory env = Inl (ConfigException msg)"
  using configFactory_cases[of env] by blast

lemma port_schemas_accept:
  "accepted (z_int (z_positive z_coerce_number)) d \<longleftrightarrow> positive_integer (to_Number d)"
  "accepted (z_min 1 z_coerce_number) d \<longleftrightarrow>
     to_Number d \<noteq> NaN \<and> \<not> num_less (to_Number d) 1"
  by (simp_all add: accepted_iff parse_port_result parse_db_port_result)

subsection \<open>The caches do not change what a parse returns\<close>

lemma parse_st_leaf:
  "parse_st (z_min 1 z_string) p d c = (Inr (parse (z_min 1 z_string) p d), c)"
  "parse_st (z_min 1 z_coerce_number) p d c = (Inr (parse (z_min 1 z_coerce_number) p d), c)"
  "parse_st (z_int (z_positive z_coerce_number)) p d c
     = (Inr (parse (z_int (z_positive z_coerce_number)) p d), c)"
  by (simp_all add: z_string_def z_coerce_number_def del: parse.simps)

lemma parse_st_environment:
  assumes "c p = None \<or> c p = Some [''development'', ''production'']"
  shows "parse_st environmentSchema p d c =
           (Inr (parse environmentSchema p d),
            case d of JSString s \<Rightarrow> c(p \<mapsto> [''development'', ''production'']) | _ \<Rightarrow> c)"
  using assms by (cases d) (auto simp: environmentSchema_def z_enum_def Let_def)

lemma parse_st_database:
  assumes "c [''database''] = None \<or> c [''database''] = Some database_keys"
  shows "parse_st databaseSchema [''database''] (JSObject ps) c =
           (Inr (parse databaseSchema [''database''] (JSObject ps)),
            c([''database''] \<mapsto> database_keys))"
  using assms
  by (auto simp: databaseSchema_def z_object_def parse_st_leaf database_keys_def Let_def split_beta)

lemma caches_ok_config:
  assumes "caches_ok configSchema c"
  shows "c [] = None \<or> c [] = Some config_keys"
    and "c [''env''] = None \<or> c [''env''] = Some enum_values"
    and "c [''database''] = None \<or> c [''database''] = Some database_keys"
proof -
  have *: "\<And>p l. c p = Some l \<Longrightarrow>
        (case schema_at configSchema p of
           Some (ZodObject shape) \<Rightarrow> l = map fst shape
         | Some (ZodEnum values) \<Rightarrow> l = values
         | _ \<Rightarrow> True)"
    using assms by (simp add: caches_ok_def)
  show "c [] = None \<or> c [] = Some config_keys"
    using *[of "[]"] by (cases "c []") (auto simp: configSchema_def z_object_def config_keys_def)
  show "c [''env''] = None \<or> c [''env''] = Some enum_values"
    using *[of "[''env'']"]
    by (cases "c [''env'']")
       (auto simp: config_schema_at environmentSchema_def z_enum_def enum_values_def)
  show "c [''database''] = None \<or> c [''database''] = Some database_keys"
    using *[of "[''database'']"]
    by (cases "c [''database'']")
       (auto simp: configSchema_def databaseSchema_def z_object_def database_keys_def)
qed

lemma parse_st_config:
  assumes "caches_ok configSchema c"
  shows "parse_st configSchema [] (raw_config env) c =
           (Inr (parse configSchema [] (raw_config env)), caches_after env c)"
proof -
  note ok = caches_ok_config[OF assms]
  define shape where "shape = [(''env'', environmentSchema),
      (''port'', z_int (z_positive z_coerce_number)), (''database'', databaseSchema)]"
  define db where "db = [(''host'', env_var env ''DATABASE_HOST''),
      (''port'', env_var env ''DATABASE_PORT''), (''username'', env_var env ''DATABASE_USERNAME''),
      (''password'', env_var env ''DATABASE_PASSWORD''), (''database'', env_var env ''DATABASE_NAME'')]"
  define ps where "ps = [(''env'', env_var env ''NODE_ENV''), (''port'', env_var env ''PORT''),
      (''database'', JSObject db)]"
  define c1 where "c1 = c([] \<mapsto> config_keys)"
  define c2 where "c2 = (case env ''NODE_ENV'' of None \<Rightarrow> c1
                         | Some s \<Rightarrow> c1([''env''] \<mapsto> enum_values))"
  define c3 where "c3 = c2([''database''] \<mapsto> database_keys)"
  define r1 where "r1 = parse environmentSchema [''env''] (env_var env ''NODE_ENV'')"
  define r2 where "r2 = parse (z_int (z_positive z_coerce_number)) [''port''] (env_var env ''PORT'')"
  define r3 where "r3 = parse databaseSchema [''database''] (JSObject db)"
  have look: "map_of shape ''env'' = Some environmentSchema"
    "map_of shape ''port'' = Some (z_int (z_positive z_coerce_number))"
    "map_of shape ''database'' = Some databaseSchema"
    "get_prop ps ''env'' = env_var env ''NODE_ENV''" "get_prop ps ''port'' = env_var env ''PORT''"
    "get_prop ps ''database'' = JSObject db"
    "''env'' \<in> fst ` set ps" "''port'' \<in> fst ` set ps" "''database'' \<in> fst ` set ps"
    by (simp_all add: shape_def ps_def get_prop_def)
  have "c1 [''env''] = c [''env'']" by (simp add: c1_def)
  then have e: "parse_st environmentSchema [''env''] (env_var env ''NODE_ENV'') c1 = (Inr r1, c2)"
    using ok(2) parse_st_environment[of c1 "[''env'']" "env_var env ''NODE_ENV''"]
    by (auto simp: enum_values_def env_var_def c2_def r1_def split: option.splits)
  have p: "parse_st (z_int (z_positive z_coerce_number)) [''port''] (env_var env ''PORT'') c2
             = (Inr r2, c2)"
    by (simp add: parse_st_leaf r2_def)
  have "c2 [''database''] = c [''database'']"
    by (simp add: c2_def c1_def split: option.splits)
  then have d: "parse_st databaseSchema [''database''] (JSObject db) c2 = (Inr r3, c3)"
    using ok(3) parse_st_database[of c2 db] by (simp add: r3_def c3_def)
  have k3: "parse_keys_st shape [''database''] [] ps c2
              = (Inr (fst r3, [(''database'', snd r3, True)]), c3)"
    by (simp add: look d split_beta)
  have k2: "parse_keys_st shape [''port'', ''database''] [] ps c2
              = (Inr (fst r2 @ fst r3, [(''port'', snd r2, True), (''database'', snd r3, True)]), c3)"
    using k3 by (simp add: look p split_beta)
  have k1: "parse_keys_st shape [''env'', ''port'', ''database''] [] ps c1
              = (Inr (fst r1 @ fst r2 @ fst r3,
                  [(''env'', snd r1, True), (''port'', snd r2, True), (''database'', snd r3, True)]),
                 c3)"
    using k2 by (simp add: look e split_beta)
  have keys: "(case c [] of None \<Rightarrow> map fst shape | Some keys \<Rightarrow> keys) = config_keys"
    using ok(1) by (auto simp: config_keys_def shape_def)
  have st: "parse_st (ZodObject shape) [] (JSObject ps) c
              = (Inr (fst r1 @ fst r2 @ fst r3,
                      mergeObjectSync False []
                        [(''env'', snd r1, True), (''port'', snd r2, True),
                         (''database'', snd r3, True)]), c3)"
    using k1 by (simp add: keys Let_def c1_def[symmetric]) (simp add: config_keys_def)
  have pure: "parse (ZodObject shape) [] (JSObject ps)
              = (fst r1 @ fst r2 @ fst r3,
                 mergeObjectSync False []
                   [(''env'', snd r1, True), (''port'', snd r2, True),
                    (''database'', snd r3, True)])"
    by (simp add: shape_def ps_def get_prop_def r1_def r2_def r3_def)
  have "configSchema = ZodObject shape" "raw_config env = JSObject ps"
    by (simp_all add: configSchema_def z_object_def shape_def raw_config_def ps_def db_def)
  moreover have "caches_after env c = c3"
    by (simp add: caches_after_def c3_def c2_def c1_def Let_def split: option.splits)
  ultimately show ?thesis
    using st pure by simp
qed


lemma caches_after_ok:
  assumes "caches_ok configSchema c"
  shows "caches_ok configSchema (caches_after env c)"
  using assms unfolding caches_ok_def caches_after_def Let_def
  by (auto simp: configSchema_def databaseSchema_def environmentSchema_def z_object_def
      z_enum_def config_keys_def enum_values_def database_keys_def
      split: option.splits if_splits)

lemma configFactory_st_refines:
  assumes "caches_ok configSchema (schema_caches ps)"
  shows "configFactory_st ps =
           (configFactory (process_env ps),
            ps\<lparr>schema_caches := caches_after (process_env ps) (schema_caches ps)\<rparr>)"
proof -
  obtain issues r where pr: "parse configSchema [] (raw_config (process_env ps)) = (issues, r)"
    by (cases "parse configSchema [] (raw_config (process_env ps))")
  show ?thesis
    using parse_st_config[OF assms, of "process_env ps"] pr
    by (cases r) (simp_all add: configFactory_st_def safeParse_st_def configFactory_def safeParse_def)
qed

section \<open>The claims of the specification\<close>

text \<open>
  Claim C1. For every environment that satisfies the constraints of the specification
  (\<^verbatim>\<open>NODE_ENV\<close> is \<^verbatim>\<open>development\<close> or \<^verbatim>\<open>production\<close>; \<^verbatim>\<open>PORT\<close> and \<^verbatim>\<open>DATABASE_PORT\<close> are
  strings that \<^verbatim>\<open>Number\<close> turns into positive integers; host, user name, password and
  database name are non-empty strings) \<open>configFactory\<close> succeeds and returns every field
  with its coerced input value. For the example environment it succeeds with the
  numbers \<open>3000\<close> and \<open>5432\<close> as the two ports.
\<close>

theorem valid_environment_loads:
  "(valid_env env \<longrightarrow> configFactory env = Inr (loaded_config env))
   \<and> valid_env example_env
   \<and> configFactory example_env = Inr (JSObject
        [(''env'', JSString ''development''),
         (''port'', JSNumber (Fin 3000)),
         (''database'', JSObject
            [(''host'', JSString ''localhost''),
             (''database'', JSString ''postgres''),
             (''password'', JSString ''postgres''),
             (''port'', JSNumber (Fin 5432)),
             (''username'', JSString ''postgres'')])])"
proof (intro conjI impI)
  assume "valid_env env"
  then have "schema_constraints env" by (rule valid_env_constraints)
  then show "configFactory env = Inr (loaded_config env)"
    using configFactory_cases[of env] by blast
next
  show "valid_env example_env" by code_simp
next
  show "configFactory example_env = Inr (JSObject
        [(''env'', JSString ''development''),
         (''port'', JSNumber (Fin 3000)),
         (''database'', JSObject
            [(''host'', JSString ''localhost''),
             (''database'', JSString ''postgres''),
             (''password'', JSString ''postgres''),
             (''port'', JSNumber (Fin 5432)),
             (''username'', JSString ''postgres'')])])"
    by code_simp
qed

theorem valid_environment_loads_witness:
  "valid_env example_env \<and> configFactory example_env = Inr (loaded_config example_env)"
  using valid_environment_loads[of example_env] by blast

text \<open>
  Claim C2 says that either port field is accepted exactly when its coerced value is a
  positive integer. The top-level port is (\<open>port_schemas_accept\<close>), and \<^verbatim>\<open>-1\<close> and
  \<^verbatim>\<open>abc\<close> are rejected for both; but the database port is declared
  \<^verbatim>\<open>z.coerce.number().min(1)\<close>, without \<^verbatim>\<open>int()\<close>: with \<^verbatim>\<open>DATABASE_PORT=1.5\<close> the
  factory succeeds and returns the database port \<open>3/2\<close>, which is no integer.
\<close>

theorem database_port_accepts_fraction:
  "configFactory (example_env(''DATABASE_PORT'' \<mapsto> ''1.5'')) = Inr (JSObject
        [(''env'', JSString ''development''),
         (''port'', JSNumber (Fin 3000)),
         (''database'', JSObject
            [(''host'', JSString ''localhost''),
             (''database'', JSString ''postgres''),
             (''password'', JSString ''postgres''),
             (''port'', JSNumber (Fin (3 / 2))),
             (''username'', JSString ''postgres'')])])
   \<and> to_Number (JSString ''1.5'') = Fin (3 / 2)
   \<and> \<not> positive_integer (Fin (3 / 2))
   \<and> accepted (z_min 1 z_coerce_number) (JSString ''1.5'')
   \<and> \<not> accepted (z_int (z_positive z_coerce_number)) (JSString ''1.5'')
   \<and> \<not> accepted (z_int (z_positive z_coerce_number)) (JSString ''-1'')
   \<and> \<not> accepted (z_int (z_positive z_coerce_number)) (JSString ''abc'')
   \<and> \<not> accepted (z_min 1 z_coerce_number) (JSString ''-1'')
   \<and> \<not> accepted (z_min 1 z_coerce_number) (JSString ''abc'')"
  by (intro conjI; code_simp)

text \<open>
  Claim C3. Whenever some field fails validation, \<open>configFactory\<close> raises a
  \<open>ConfigException\<close> whose message is the prefix \<^verbatim>\<open>Configuration file error: \<close> followed
  by the text of the issues of all fields; every failing field has an issue with its
  path among them, and the message prints that path.
\<close>

theorem failure_reports_every_failing_field:
  assumes "\<exists>p\<in>set (leaf_paths configSchema). \<not> field_ok env p"
  shows "\<exists>msg. configFactory env = Inl (ConfigException (''Configuration file error: '' @ msg))
           \<and> msg = ZodError_message (all_issues env)
           \<and> (\<forall>p\<in>set (leaf_paths configSchema). \<not> field_ok env p \<longrightarrow>
                 (\<exists>i\<in>set (all_issues env). has_path p i) \<and> sublist (path_text p) msg)"
proof -
  obtain p where "p \<in> set (leaf_paths configSchema)" "\<not> field_ok env p"
    using assms by blast
  then have "configFactory env = Inl (ConfigException
      (''Configuration file error: '' @ ZodError_message (all_issues env)))"
    by (rule configFactory_failure)
  then show ?thesis
    using failing_field_mentioned by blast
qed

theorem failure_reports_every_failing_field_witness:
  "\<exists>msg. configFactory broken_env = Inl (ConfigException (''Configuration file error: '' @ msg))
     \<and> sublist (path_text [''env'']) msg
     \<and> sublist (path_text [''port'']) msg
     \<and> sublist (path_text [''database'', ''host'']) msg"
proof -
  have bad: "\<not> field_ok broken_env [''env'']" "\<not> field_ok broken_env [''port'']"
    "\<not> field_ok broken_env [''database'', ''host'']"
    by code_simp+
  have mem: "[''env''] \<in> set (leaf_paths configSchema)" "[''port''] \<in> set (leaf_paths configSchema)"
    "[''database'', ''host''] \<in> set (leaf_paths configSchema)"
    by (simp_all add: config_leaf_paths)
  have h: "\<exists>p\<in>set (leaf_paths configSchema). \<not> field_ok broken_env p"
    using bad(1) mem(1) by blast
  show ?thesis
    using failure_reports_every_failing_field[OF h] bad mem by blast
qed

text \<open>
  Claim C4. The schema of the field \<^verbatim>\<open>env\<close> accepts a value exactly when it is one of
  the strings \<^verbatim>\<open>development\<close> and \<^verbatim>\<open>production\<close>; the field is filled from
  \<^verbatim>\<open>NODE_ENV\<close>, and with any other value there (also with none) loading fails, as it
  does for \<^verbatim>\<open>staging\<close>.
\<close>

theorem env_field_enumerated:
  "(accepted environmentSchema d \<longleftrightarrow> d \<in> {JSString ''development'', JSString ''production''})
   \<and> schema_at configSchema [''env''] = Some environmentSchema
   \<and> value_at (raw_config env) [''env''] = env_var env ''NODE_ENV''
   \<and> (env ''NODE_ENV'' \<notin> {Some ''development'', Some ''production''} \<longrightarrow>
         (\<exists>msg. configFactory env = Inl (ConfigException msg)))
   \<and> (\<exists>msg. configFactory (example_env(''NODE_ENV'' \<mapsto> ''staging'')) = Inl (ConfigException msg))"
proof (intro conjI impI)
  show "accepted environmentSchema d \<longleftrightarrow> d \<in> {JSString ''development'', JSString ''production''}"
    by (simp add: accepted_iff parse_enum_result)
next
  show "schema_at configSchema [''env''] = Some environmentSchema"
    by (rule config_schema_at)
next
  show "value_at (raw_config env) [''env''] = env_var env ''NODE_ENV''"
    by (rule config_value_at)
next
  assume "env ''NODE_ENV'' \<notin> {Some ''development'', Some ''production''}"
  then have "\<not> schema_constraints env" by (simp add: schema_constraints_def)
  then show "\<exists>msg. configFactory env = Inl (ConfigException msg)"
    by (rule not_constraints_fails)
next
  have "\<not> schema_constraints (example_env(''NODE_ENV'' \<mapsto> ''staging''))"
    by (simp add: schema_constraints_def)
  then show "\<exists>msg. configFactory (example_env(''NODE_ENV'' \<mapsto> ''staging'')) = Inl (ConfigException msg)"
    by (rule not_constraints_fails)
qed

theorem env_field_enumerated_witness:
  "(example_env(''NODE_ENV'' \<mapsto> ''staging'')) ''NODE_ENV'' \<notin> {Some ''development'', Some ''production''}
   \<and> \<not> accepted environmentSchema (JSString ''staging'')
   \<and> accepted environmentSchema (JSString ''production'')
   \<and> (\<exists>msg. configFactory (example_env(''NODE_ENV'' \<mapsto> ''staging'')) = Inl (ConfigException msg))"
proof -
  let ?env = "example_env(''NODE_ENV'' \<mapsto> ''staging'')"
  have h: "?env ''NODE_ENV'' \<notin> {Some ''development'', Some ''production''}"
    by simp
  note t = env_field_enumerated[of "JSString ''staging''" ?env]
  note u = env_field_enumerated[of "JSString ''production''" example_env]
  have "\<not> accepted environmentSchema (JSString ''staging'')"
    using t[THEN conjunct1] by simp
  moreover have "accepted environmentSchema (JSString ''production'')"
    using u[THEN conjunct1] by simp
  moreover have "\<exists>msg. configFactory ?env = Inl (ConfigException msg)"
    using t[THEN conjunct2, THEN conjunct2, THEN conjunct2, THEN conjunct1] h by (rule mp)
  ultimately show ?thesis using h by (intro conjI)
qed

text \<open>
  Claim C5. Each of the seven fields is filled from its variable; when one of the
  variables is not set, \<open>configFactory\<close> raises a \<open>ConfigException\<close> whose message prints
  the path of that field. With \<^verbatim>\<open>DATABASE_PASSWORD\<close> missing from the example
  environment the message is the one displayed, with the path
  \<^verbatim>\<open>database\<close>, \<^verbatim>\<open>password\<close>.
\<close>

theorem missing_key_reported:
  \<open>(\<forall>(n, p)\<in>set config_vars. value_at (raw_config env) p = env_var env n)
   \<and> (\<forall>(n, p)\<in>set config_vars. env n = None \<longrightarrow>
         (\<exists>msg. configFactory env = Inl (ConfigException (''Configuration file error: '' @ msg))
            \<and> sublist (path_text p) msg))
   \<and> configFactory (example_env(''DATABASE_PASSWORD'' := None)) = Inl (ConfigException
''Configuration file error: [\<newline>  {\<newline>    "code": "invalid_type",\<newline>    "expected": "string",\<newline>    "received": "undefined",\<newline>    "path": [\<newline>      "database",\<newline>      "password"\<newline>    ],\<newline>    "message": "Required"\<newline>  }\<newline>]'')
   \<and> path_text [''database'', ''password'']
       = ''    "path": [\<newline>      "database",\<newline>      "password"\<newline>    ]''\<close>
proof (intro conjI)
  show "\<forall>(n, p)\<in>set config_vars. value_at (raw_config env) p = env_var env n"
    by (simp add: config_vars_def config_value_at)
next
  show "\<forall>(n, p)\<in>set config_vars. env n = None \<longrightarrow>
         (\<exists>msg. configFactory env = Inl (ConfigException (''Configuration file error: '' @ msg))
            \<and> sublist (path_text p) msg)"
  proof (intro ballI, clarify)
    fix n p assume "(n, p) \<in> set config_vars" "env n = None"
    then have np: "p \<in> set (leaf_paths configSchema)" "\<not> field_ok env p"
      using missing_not_ok by blast+
    then have "configFactory env = Inl (ConfigException
        (''Configuration file error: '' @ ZodError_message (all_issues env)))"
      by (rule configFactory_failure)
    then show "\<exists>msg. configFactory env = Inl (ConfigException (''Configuration file error: '' @ msg))
            \<and> sublist (path_text p) msg"
      using failing_field_mentioned[OF np] by blast
  qed
next
  show \<open>configFactory (example_env(''DATABASE_PASSWORD'' := None)) = Inl (ConfigException
''Configuration file error: [\<newline>  {\<newline>    "code": "invalid_type",\<newline>    "expected": "string",\<newline>    "received": "undefined",\<newline>    "path": [\<newline>      "database",\<newline>      "password"\<newline>    ],\<newline>    "message": "Required"\<newline>  }\<newline>]'')\<close>
    by code_simp
next
  show \<open>path_text [''database'', ''password'']
       = ''    "path": [\<newline>      "database",\<newline>      "password"\<newline>    ]''\<close>
    by code_simp
qed

theorem missing_key_reported_witness:
  "\<exists>msg. configFactory (example_env(''DATABASE_PASSWORD'' := None))
            = Inl (ConfigException (''Configuration file error: '' @ msg))
      \<and> sublist (path_text [''database'', ''password'']) msg"
proof -
  have "(''DATABASE_PASSWORD'', [''database'', ''password'']) \<in> set config_vars"
    by (simp add: config_vars_def)
  moreover have "(example_env(''DATABASE_PASSWORD'' := None)) ''DATABASE_PASSWORD'' = None"
    by simp
  ultimately show ?thesis
    using missing_key_reported[of "example_env(''DATABASE_PASSWORD'' := None)"] by blast
qed

text \<open>
  Claim C6 says that a load either succeeds with every field satisfying its constraint
  or fails. With \<^verbatim>\<open>DATABASE_PORT=1.5\<close> the environment is not valid (the database port
  is no positive integer), and yet \<open>configFactory\<close> succeeds and returns the
  configuration with the database port \<open>3/2\<close>; with \<^verbatim>\<open>DATABASE_PORT=Infinity\<close> it
  returns an infinite port. Both come from the integer check that the database port
  lacks (claim C2). No field is replaced by a default: the result is the configuration
  of the coerced inputs.
\<close>

theorem invalid_database_port_loads:
  "\<not> valid_env (example_env(''DATABASE_PORT'' \<mapsto> ''1.5''))
   \<and> configFactory (example_env(''DATABASE_PORT'' \<mapsto> ''1.5''))
       = Inr (loaded_config (example_env(''DATABASE_PORT'' \<mapsto> ''1.5'')))
   \<and> value_at (loaded_config (example_env(''DATABASE_PORT'' \<mapsto> ''1.5''))) [''database'', ''port'']
       = JSNumber (Fin (3 / 2))
   \<and> \<not> valid_env (example_env(''DATABASE_PORT'' \<mapsto> ''Infinity''))
   \<and> configFactory (example_env(''DATABASE_PORT'' \<mapsto> ''Infinity''))
       = Inr (loaded_config (example_env(''DATABASE_PORT'' \<mapsto> ''Infinity'')))
   \<and> value_at (loaded_config (example_env(''DATABASE_PORT'' \<mapsto> ''Infinity''))) [''database'', ''port'']
       = JSNumber PosInf"
  by (intro conjI; code_simp)

text \<open>
  Claim C7. Running the factory two times in a row gives the same outcome both times,
  and two successful runs return equal configurations: the first run leaves the
  environment as it found it and the caches of the schema objects sound, and the second
  run, which reads the caches the first one filled, returns what the first returned.
  The caches of a fresh process are sound, and soundness is kept by every run.
\<close>

theorem loading_twice_gives_equal_results:
  assumes "caches_ok configSchema (schema_caches ps)"
  shows "fst (configFactory_st (snd (configFactory_st ps))) = fst (configFactory_st ps)
         \<and> process_env (snd (configFactory_st ps)) = process_env ps
         \<and> caches_ok configSchema (schema_caches (snd (configFactory_st ps)))
         \<and> (\<forall>c1 c2. fst (configFactory_st ps) = Inr c1
               \<and> fst (configFactory_st (snd (configFactory_st ps))) = Inr c2 \<longrightarrow> c1 = c2)"
proof -
  let ?ps' = "ps\<lparr>schema_caches := caches_after (process_env ps) (schema_caches ps)\<rparr>"
  have 1: "configFactory_st ps = (configFactory (process_env ps), ?ps')"
    using assms by (rule configFactory_st_refines)
  have ok': "caches_ok configSchema (schema_caches ?ps')"
    using assms by (simp add: caches_after_ok)
  have 2: "fst (configFactory_st ?ps') = configFactory (process_env ps)"
    using configFactory_st_refines[OF ok'] by simp
  show ?thesis
    using 1 2 ok' by auto
qed

theorem loading_twice_gives_equal_results_witness:
  "fst (configFactory_st (fresh_process example_env)) = Inr (loaded_config example_env)
   \<and> schema_caches (snd (configFactory_st (fresh_process example_env)))
       \<noteq> schema_caches (fresh_process example_env)
   \<and> fst (configFactory_st (snd (configFactory_st (fresh_process example_env))))
       = Inr (loaded_config example_env)"
proof -
  let ?ps = "fresh_process example_env"
  have ok: "caches_ok configSchema (schema_caches ?ps)"
    by (simp add: fresh_process_def caches_ok_def)
  have r: "configFactory example_env = Inr (loaded_config example_env)"
    by code_simp
  have 1: "configFactory_st ?ps =
      (configFactory example_env, ?ps\<lparr>schema_caches := caches_after example_env Map.empty\<rparr>)"
    using configFactory_st_refines[OF ok] by (simp add: fresh_process_def)
  have "caches_after example_env Map.empty [] \<noteq> Map.empty []"
    by (simp add: caches_after_def Let_def split: option.splits)
  then have "caches_after example_env Map.empty \<noteq> Map.empty"
    by metis
  then have 2: "schema_caches (snd (configFactory_st ?ps)) \<noteq> schema_caches ?ps"
    using 1 by (simp add: fresh_process_def)
  have "fst (configFactory_st (snd (configFactory_st ?ps))) = fst (configFactory_st ?ps)"
    using loading_twice_gives_equal_results[OF ok] by (rule conjunct1)
  then show ?thesis
    using 1 2 r by simp
qed

text \<open>
  Claim C8. The schema of the fields host, user name, password and database name accepts
  a value exactly when it is a non-empty string; each of the four fields is accepted
  exactly when its variable is set to a non-empty string, and an empty string in any of
  them makes loading fail.
\<close>

theorem string_fields_non_empty:
  "(accepted (z_min 1 z_string) d \<longleftrightarrow> (\<exists>s. d = JSString s \<and> s \<noteq> []))
   \<and> (\<forall>k\<in>{''host'', ''username'', ''password'', ''database''}.
         schema_at databaseSchema [k] = Some (z_min 1 z_string))
   \<and> (\<forall>(n, p)\<in>set config_vars.
         n \<in> {''DATABASE_HOST'', ''DATABASE_USERNAME'', ''DATABASE_PASSWORD'', ''DATABASE_NAME''} \<longrightarrow>
         (field_ok env p \<longleftrightarrow> non_empty (env n))
         \<and> (env n = Some [] \<longrightarrow> (\<exists>msg. configFactory env = Inl (ConfigException msg))))"
proof (intro conjI)
  show "accepted (z_min 1 z_string) d \<longleftrightarrow> (\<exists>s. d = JSString s \<and> s \<noteq> [])"
    by (cases d) (simp_all add: accepted_iff parse_string_result)
next
  show "\<forall>k\<in>{''host'', ''username'', ''password'', ''database''}.
         schema_at databaseSchema [k] = Some (z_min 1 z_string)"
    by (simp add: databaseSchema_def z_object_def)
next
  have "\<And>n. env n = Some [] \<Longrightarrow> \<not> non_empty (env n)"
    by (simp add: non_empty_def)
  then have "\<And>n. n \<in> {''DATABASE_HOST'', ''DATABASE_USERNAME'', ''DATABASE_PASSWORD'', ''DATABASE_NAME''}
      \<Longrightarrow> env n = Some [] \<Longrightarrow> \<not> schema_constraints env"
    unfolding schema_constraints_def by blast
  then show "\<forall>(n, p)\<in>set config_vars.
         n \<in> {''DATABASE_HOST'', ''DATABASE_USERNAME'', ''DATABASE_PASSWORD'', ''DATABASE_NAME''} \<longrightarrow>
         (field_ok env p \<longleftrightarrow> non_empty (env n))
         \<and> (env n = Some [] \<longrightarrow> (\<exists>msg. configFactory env = Inl (ConfigException msg)))"
    using not_constraints_fails[of env]
    by (simp add: config_vars_def field_ok_string non_empty_iff)
qed

theorem string_fields_non_empty_witness:
  "\<not> accepted (z_min 1 z_string) (JSString [])
   \<and> accepted (z_min 1 z_string) (JSString ''localhost'')
   \<and> (\<exists>msg. configFactory (example_env(''DATABASE_HOST'' \<mapsto> [])) = Inl (ConfigException msg))"
proof -
  let ?env = "example_env(''DATABASE_HOST'' \<mapsto> [])"
  note t = string_fields_non_empty[of "JSString []" ?env]
  note u = string_fields_non_empty[of "JSString ''localhost''" example_env]
  have mem: "(''DATABASE_HOST'', [''database'', ''host'']) \<in> set config_vars"
    by (simp add: config_vars_def)
  have "\<not> accepted (z_min 1 z_string) (JSString [])"
    using t[THEN conjunct1] by simp
  moreover have "accepted (z_min 1 z_string) (JSString ''localhost'')"
    using u[THEN conjunct1] by simp
  moreover have "\<exists>msg. configFactory ?env = Inl (ConfigException msg)"
    using t[THEN conjunct2, THEN conjunct2, THEN bspec, OF mem] by simp
  ultimately show ?thesis by (intro conjI)
qed

text \<open>
  Claim C10. The outcome of \<open>configFactory\<close> depends on the seven variables
  \<^verbatim>\<open>NODE_ENV\<close>, \<^verbatim>\<open>PORT\<close>, \<^verbatim>\<open>DATABASE_HOST\<close>, \<^verbatim>\<open>DATABASE_PORT\<close>, \<^verbatim>\<open>DATABASE_USERNAME\<close>,
  \<^verbatim>\<open>DATABASE_PASSWORD\<close> and \<^verbatim>\<open>DATABASE_NAME\<close> only: two environments that agree on
  them give the same outcome.
\<close>

theorem unrelated_variables_do_not_interfere:
  assumes "\<forall>n\<in>fst ` set config_vars. env1 n = env2 n"
  shows "configFactory env1 = configFactory env2"
proof -
  have "raw_config env1 = raw_config env2"
    using assms by (simp add: raw_config_def env_var_def config_vars_def)
  then show ?thesis by (simp add: configFactory_def)
qed

theorem unrelated_variables_do_not_interfere_witness:
  "example_env \<noteq> example_env(''HOME'' \<mapsto> ''/root'')
   \<and> list_all (\<lambda>n. example_env n = (example_env(''HOME'' \<mapsto> ''/root'')) n) (map fst config_vars)
   \<and> configFactory example_env = configFactory (example_env(''HOME'' \<mapsto> ''/root''))"
proof -
  have h: "\<forall>n\<in>fst ` set config_vars. example_env n = (example_env(''HOME'' \<mapsto> ''/root'')) n"
    by (simp add: config_vars_def)
  have "example_env ''HOME'' \<noteq> (example_env(''HOME'' \<mapsto> ''/root'')) ''HOME''"
    by (simp add: example_env_def)
  then have "example_env \<noteq> example_env(''HOME'' \<mapsto> ''/root'')" by metis
  moreover have "list_all (\<lambda>n. example_env n = (example_env(''HOME'' \<mapsto> ''/root'')) n)
                   (map fst config_vars)"
    by (simp add: config_vars_def)
  ultimately show ?thesis
    using unrelated_variables_do_not_interfere[OF h] by (intro conjI)
qed

end
